theory Spec2Isabelle
  imports Complex_Main "HOL-Library.Word"
begin

section \<open>Data model of the replay pipeline\<close>

text \<open>
  The development follows \<^verbatim>\<open>replay.go\<close>. Go's \<^verbatim>\<open>int64\<close> is a 64-bit word read in
  two's complement.
\<close>

type_synonym int64 = "64 word"

text \<open>
  Modelled from the spec: the declaration of \<^verbatim>\<open>LineType\<close> and of its constants is
  not part of \<^verbatim>\<open>replay.go\<close>. The spec gives a closed variant: a shard start, a
  message, and the remaining control types, which \<^verbatim>\<open>replay.go\<close> never tells apart.
\<close>

datatype LineType = LineTypeStart | LineTypeMessage | LineTypeOther string

text \<open>
  What \<^verbatim>\<open>json.Unmarshal\<close> stores in an \<^verbatim>\<open>interface{}\<close>: \<^verbatim>\<open>nil\<close>, \<^verbatim>\<open>bool\<close>,
  \<^verbatim>\<open>float64\<close>, \<^verbatim>\<open>string\<close>, a slice or a nested map; \<open>JInt64\<close> is the \<^verbatim>\<open>int64\<close>
  that the type conversion of \<^verbatim>\<open>processRawLine\<close> puts in place of a field. A decoded
  \<^verbatim>\<open>float64\<close> is finite, and is represented by the rational number it denotes: the
  only operation the program applies to it is the conversion to \<^verbatim>\<open>int64\<close>.
\<close>

datatype jvalue =
    JNull
  | JBool bool
  | JFloat rat
  | JString string
  | JArray "jvalue list"
  | JObject "(string \<times> jvalue) list"
  | JInt64 int64

text \<open>
  The \<^verbatim>\<open>Message\<close> of a \<^verbatim>\<open>StructLine\<close> is an \<^verbatim>\<open>interface{}\<close> holding either the raw
  payload of the line or the map of decoded fields.
\<close>

datatype 'b message = Raw 'b | Fields "string \<rightharpoonup> jvalue"

text \<open>
  Modelled from the spec: the struct declarations \<^verbatim>\<open>StructLine\<close> (the Typed Line) and
  \<^verbatim>\<open>StringLine\<close> (the Raw Line) are not part of \<^verbatim>\<open>replay.go\<close>; their fields are the
  ones \<^verbatim>\<open>processRawLine\<close> reads and writes. The payload type \<open>'b\<close> stands for the
  byte slice of the raw line.
\<close>

record 'b StructLine =
  Exchange :: string
  Type :: LineType
  Timestamp :: int64
  Channel :: "string option"
  Message :: "'b message"
  Definition :: "(string \<rightharpoonup> string) option"

record 'b StringLine =
  Exchange :: string
  Type :: LineType
  Timestamp :: int64
  Channel :: "string option"
  Message :: 'b

text \<open>
  Errors. The first three are the ones \<^verbatim>\<open>processRawLine\<close> builds with
  \<^verbatim>\<open>fmt.Errorf\<close> (the spec's DecodeError); each keeps what the message is formatted
  from: the decoder's error, or the string \<^verbatim>\<open>strconv.ParseInt\<close> rejected.
  \<open>StartNotBeforeEnd\<close> is \<^verbatim>\<open>errors.New("'Start' >= 'End'")\<close>, and \<open>Upstream\<close> is an
  error that a collaborator (filter copy, raw transport) returned and that is handed on
  as it is.
\<close>

datatype error =
    DefUpdateUnmarshal string
  | MessageUnmarshal string
  | TypeConversion string
  | StartNotBeforeEnd
  | Upstream string

fun is_DecodeError :: "error \<Rightarrow> bool" where
  "is_DecodeError (DefUpdateUnmarshal _) = True"
| "is_DecodeError (MessageUnmarshal _) = True"
| "is_DecodeError (TypeConversion _) = True"
| "is_DecodeError _ = False"

section \<open>Library functions the processor calls\<close>

text \<open>
  \<^verbatim>\<open>strconv.ParseInt(s, 10, 64)\<close>: an optional sign, then one or more decimal
  digits, and the value has to fit in 64 bits; \<open>None\<close> stands for the error return
  (syntax or range).
\<close>

definition is_digit :: "char \<Rightarrow> bool" where
  "is_digit c = (48 \<le> (of_char c :: nat) \<and> (of_char c :: nat) \<le> 57)"

fun digits_value :: "nat \<Rightarrow> string \<Rightarrow> nat option" where
  "digits_value acc [] = Some acc"
| "digits_value acc (c # cs) =
     (if is_digit c then digits_value (acc * 10 + (of_char c - 48)) cs else None)"

definition ParseUint :: "string \<Rightarrow> nat option" where
  "ParseUint s = (if s = [] then None else digits_value 0 s)"

definition ParseInt :: "string \<Rightarrow> int64 option" where
  "ParseInt s =
     (case s of
        [] \<Rightarrow> None
      | c # cs \<Rightarrow>
          (let neg = (c = CHR ''-'');
               s' = (if c = CHR ''+'' \<or> c = CHR ''-'' then cs else s)
           in case ParseUint s' of
                None \<Rightarrow> None
              | Some un \<Rightarrow>
                  if \<not> neg \<and> un \<ge> 2 ^ 63 then None
                  else if neg \<and> un > 2 ^ 63 then None
                  else Some (if neg then - word_of_nat un else word_of_nat un)))"

text \<open>
  The conversion \<^verbatim>\<open>int64(f)\<close> of a \<^verbatim>\<open>float64\<close> discards the fraction (truncation
  towards zero). When the truncated value does not fit in 64 bits, Go leaves the result
  to the implementation: that part is the parameter \<open>ovf\<close>.
\<close>

definition truncate_float :: "rat \<Rightarrow> int" where
  "truncate_float q = (if 0 \<le> q then \<lfloor>q\<rfloor> else \<lceil>q\<rceil>)"

definition int64_of_float64 :: "(rat \<Rightarrow> int64) \<Rightarrow> rat \<Rightarrow> int64" where
  "int64_of_float64 ovf q =
     (let t = truncate_float q
      in if - (2 ^ 63) \<le> t \<and> t < 2 ^ 63 then word_of_int t else ovf q)"

text \<open>
  What the Go runtime and \<^verbatim>\<open>encoding/json\<close> contribute to one call of the
  processor:
  \<^item> \<open>unmarshal_def\<close> is \<^verbatim>\<open>json.Unmarshal(message, &def)\<close> into a fresh
    \<^verbatim>\<open>map[string]string\<close>, \<open>unmarshal_obj\<close> is \<^verbatim>\<open>json.Unmarshal(message, &msgObj)\<close>
    into a fresh \<^verbatim>\<open>map[string]interface{}\<close>; \<open>Inl\<close> carries the decoder's error;
  \<^item> \<open>range_order\<close> is the order in which \<^verbatim>\<open>range def\<close> visits the entries of a
    definition, which Go does not specify;
  \<^item> \<open>float_overflow\<close> is the implementation-dependent result of an out-of-range
    \<^verbatim>\<open>int64(f)\<close>.
\<close>

record 'b runtime =
  unmarshal_def :: "'b \<Rightarrow> string + (string \<rightharpoonup> string)"
  unmarshal_obj :: "'b \<Rightarrow> string + (string \<rightharpoonup> jvalue)"
  range_order :: "(string \<rightharpoonup> string) \<Rightarrow> (string \<times> string) list"
  float_overflow :: "rat \<Rightarrow> int64"

text \<open>
  An order is an enumeration of a definition when it lists every entry of the map
  exactly once.
\<close>

definition enumerates :: "(string \<times> string) list \<Rightarrow> (string \<rightharpoonup> string) \<Rightarrow> bool" where
  "enumerates kvs def \<longleftrightarrow> distinct (map fst kvs) \<and> map_of kvs = def"

section \<open>The line processor\<close>

record rawLineProcessor =
  defs :: "string \<rightharpoonup> (string \<rightharpoonup> (string \<rightharpoonup> string))"

definition newRawLineProcessor :: rawLineProcessor where
  "newRawLineProcessor = \<lparr>defs = Map.empty\<rparr>"

text \<open>
  The type conversion loop of \<^verbatim>\<open>processRawLine\<close> (\<^verbatim>\<open>for name, typ := range def\<close>),
  over the entries in the order the runtime visits them. The two type assertions
  \<^verbatim>\<open>val.(string)\<close> and \<^verbatim>\<open>val.(float64)\<close> have no \<^verbatim>\<open>ok\<close> result: on a value of
  another dynamic type they panic.
\<close>

datatype converted = Done "string \<rightharpoonup> jvalue" | Failed error | Panicked

fun convert_fields ::
  "(rat \<Rightarrow> int64) \<Rightarrow> (string \<times> string) list \<Rightarrow> (string \<rightharpoonup> jvalue) \<Rightarrow> converted"
where
  "convert_fields ovf [] msgObj = Done msgObj"
| "convert_fields ovf ((name, typ) # rest) msgObj =
     (case msgObj name of
        None \<Rightarrow> convert_fields ovf rest msgObj
      | Some JNull \<Rightarrow> convert_fields ovf rest msgObj
      | Some val \<Rightarrow>
          if typ = ''timestamp'' \<or> typ = ''duration'' then
            (case val of
               JString s \<Rightarrow>
                 (case ParseInt s of
                    None \<Rightarrow> Failed (TypeConversion s)
                  | Some n \<Rightarrow> convert_fields ovf rest (msgObj(name \<mapsto> JInt64 n)))
             | _ \<Rightarrow> Panicked)
          else if typ = ''int'' then
            (case val of
               JFloat q \<Rightarrow>
                 convert_fields ovf rest (msgObj(name \<mapsto> JInt64 (int64_of_float64 ovf q)))
             | _ \<Rightarrow> Panicked)
          else convert_fields ovf rest msgObj)"

text \<open>
  The three returns of \<^verbatim>\<open>processRawLine\<close>, \<^verbatim>\<open>(ret, ok, err)\<close>:
  \<open>Emit ret\<close> is \<^verbatim>\<open>ok == true\<close>; \<open>Skip\<close> is \<^verbatim>\<open>ok == false\<close> with a nil error (the
  line was a schema definition); \<open>Fail err\<close> is \<^verbatim>\<open>ok == false\<close> with an error.
  \<open>Panic\<close> is a run-time panic: a nil \<^verbatim>\<open>Channel\<close> dereferenced, or a failed type
  assertion. The processor is returned in the state the call left it in.
\<close>

datatype 'b result = Emit "'b StructLine" | Skip | Fail error | Panic

definition processRawLine ::
  "'b runtime \<Rightarrow> rawLineProcessor \<Rightarrow> 'b StringLine \<Rightarrow> 'b result \<times> rawLineProcessor"
where
  "processRawLine rt p0 line =
     (let p1 = (if Type line = LineTypeStart
                then p0\<lparr>defs := (defs p0)(Exchange line := None)\<rparr> else p0)
      in if Type line \<noteq> LineTypeMessage then
           (Emit \<lparr>StructLine.Exchange = Exchange line,
                  StructLine.Type = Type line,
                  StructLine.Timestamp = Timestamp line,
                  StructLine.Channel = Channel line,
                  StructLine.Message = Raw (Message line),
                  Definition = None\<rparr>, p1)
         else
           (case Channel line of
              None \<Rightarrow> (Panic, p1)
            | Some channel \<Rightarrow>
                (let exchange = Exchange line;
                     message = Message line;
                     p2 = (case defs p1 exchange of
                             None \<Rightarrow> p1\<lparr>defs := (defs p1)(exchange \<mapsto> Map.empty)\<rparr>
                           | Some _ \<Rightarrow> p1);
                     chans = (case defs p2 exchange of None \<Rightarrow> Map.empty | Some m \<Rightarrow> m)
                 in case chans channel of
                      None \<Rightarrow>
                        (case unmarshal_def rt message of
                           Inl serr \<Rightarrow> (Fail (DefUpdateUnmarshal serr), p2)
                         | Inr def \<Rightarrow>
                             (Skip, p2\<lparr>defs := (defs p2)(exchange \<mapsto> chans(channel \<mapsto> def))\<rparr>))
                    | Some def \<Rightarrow>
                        (case unmarshal_obj rt message of
                           Inl serr \<Rightarrow> (Fail (MessageUnmarshal serr), p2)
                         | Inr msgObj \<Rightarrow>
                             (case convert_fields (float_overflow rt) (range_order rt def) msgObj of
                                Failed e \<Rightarrow> (Fail e, p2)
                              | Panicked \<Rightarrow> (Panic, p2)
                              | Done obj \<Rightarrow>
                                  (Emit \<lparr>StructLine.Exchange = exchange,
                                         StructLine.Type = Type line,
                                         StructLine.Timestamp = Timestamp line,
                                         StructLine.Channel = Channel line,
                                         StructLine.Message = Fields obj,
                                         Definition = Some def\<rparr>, p2))))))"

section \<open>Replay requests\<close>

text \<open>
  The filter is a \<^verbatim>\<open>map[string][]string\<close>, and the client \<open>'c\<close> is left abstract. The
  fields \<^verbatim>\<open>filter\<close> and \<^verbatim>\<open>end\<close> carry a prefix, since the bare names are taken in
  Isabelle.

  \<^verbatim>\<open>time.Time\<close> belongs to Go's standard library. A \<^verbatim>\<open>Time\<close> is an instant with
  nanosecond precision, here the number of nanoseconds since the Unix epoch (negative
  before it), and instants are ordered as these numbers are. \<^verbatim>\<open>UnixNano\<close> returns
  that number as an \<^verbatim>\<open>int64\<close>; it computes in \<^verbatim>\<open>int64\<close>, so an instant outside the
  64-bit range (before the year 1678 or after 2262) comes out wrapped around.
\<close>

type_synonym filter_map = "string \<rightharpoonup> string list"




record 'c ReplayRequest =
  req_cli :: 'c
  req_filter :: filter_map
  req_start :: int64
  req_end :: int64


section \<open>The raw transport\<close>

text \<open>
  Modelled from the spec: \<^verbatim>\<open>RawRequest\<close>, its methods \<^verbatim>\<open>DownloadWithContext\<close> and
  \<^verbatim>\<open>StreamWithContext\<close>, and \<^verbatim>\<open>StringLineIterator\<close> are declared outside
  \<^verbatim>\<open>replay.go\<close>. The bulk fetch returns an ordered collection of raw lines or an error.
  The stream is a pull iterator: \<^verbatim>\<open>Next\<close> hands out the raw lines one by one, and
  once none is left it reports \<^verbatim>\<open>ok == false\<close>, with the transport's error if the
  stream broke. The context is not modelled.
\<close>

record 'c RawRequest =
  raw_cli :: 'c
  raw_filter :: filter_map
  raw_start :: int64
  raw_end :: int64
  raw_format :: "string option"

record 'b StringLineIterator =
  pending :: "'b StringLine list"
  failure :: "error option"

text \<open>The returns of the raw \<^verbatim>\<open>Next\<close>: \<^verbatim>\<open>(line, true, nil)\<close> or \<^verbatim>\<open>(nil, false, err)\<close>.\<close>

datatype 'b pulled = RawLine "'b StringLine" | RawEnd "error option"

definition raw_Next :: "'b StringLineIterator \<Rightarrow> 'b pulled \<times> 'b StringLineIterator" where
  "raw_Next it =
     (case pending it of
        [] \<Rightarrow> (RawEnd (failure it), it)
      | line # rest \<Rightarrow> (RawLine line, it\<lparr>pending := rest\<rparr>))"

record ('c, 'b) transport =
  bulkFetch :: "'c RawRequest \<Rightarrow> int \<Rightarrow> error + 'b StringLine list"
  streamFetch :: "'c RawRequest \<Rightarrow> int \<Rightarrow> error + 'b StringLineIterator"

definition rawRequest_of :: "'c ReplayRequest \<Rightarrow> 'c RawRequest" where
  "rawRequest_of r =
     \<lparr>raw_cli = req_cli r, raw_filter = req_filter r, raw_start = req_start r,
      raw_end = req_end r, raw_format = Some ''json''\<rparr>"

section \<open>The download path\<close>

text \<open>
  The returns of \<^verbatim>\<open>DownloadWithContext\<close>: \<open>Lines result\<close> is \<^verbatim>\<open>(result, nil)\<close>,
  \<open>Error serr\<close> is \<^verbatim>\<open>(nil, serr)\<close>, and \<open>DownloadPanic\<close> is a panic of the processor,
  which nothing recovers.
\<close>

datatype 'b downloaded = Lines "'b StructLine list" | Error error | DownloadPanic

text \<open>The loop \<^verbatim>\<open>for i := range slice\<close>, with the processor and \<^verbatim>\<open>result\<close> as state.\<close>

fun download_loop ::
  "'b runtime \<Rightarrow> rawLineProcessor \<Rightarrow> 'b StringLine list \<Rightarrow> 'b StructLine list \<Rightarrow> 'b downloaded"
where
  "download_loop rt processor [] result = Lines result"
| "download_loop rt processor (line # rest) result =
     (case processRawLine rt processor line of
        (Emit processed, processor') \<Rightarrow> download_loop rt processor' rest (result @ [processed])
      | (Skip, processor') \<Rightarrow> download_loop rt processor' rest result
      | (Fail serr, _) \<Rightarrow> Error serr
      | (Panic, _) \<Rightarrow> DownloadPanic)"

text \<open>
  \<^verbatim>\<open>DownloadWithContext\<close> has a pointer receiver; the request is returned next to the
  result, in the state the call leaves it in.
\<close>

definition DownloadWithContext ::
  "('c, 'b) transport \<Rightarrow> 'b runtime \<Rightarrow> 'c ReplayRequest \<Rightarrow> int \<Rightarrow> 'b downloaded \<times> 'c ReplayRequest"
where
  "DownloadWithContext tr rt r concurrency =
     (case bulkFetch tr (rawRequest_of r) concurrency of
        Inl serr \<Rightarrow> (Error serr, r)
      | Inr slice' \<Rightarrow> (download_loop rt newRawLineProcessor slice' [], r))"

section \<open>The streaming path\<close>

text \<open>
  The iterator's field \<^verbatim>\<open>req\<close> is never assigned nor read in \<^verbatim>\<open>replay.go\<close> and is
  left out.
\<close>

record 'b replayStreamIterator =
  rawItr :: "'b StringLineIterator"
  processor :: rawLineProcessor

definition newReplayStreamIterator ::
  "('c, 'b) transport \<Rightarrow> 'c ReplayRequest \<Rightarrow> int \<Rightarrow> error + 'b replayStreamIterator"
where
  "newReplayStreamIterator tr req bufferSize =
     (case streamFetch tr (rawRequest_of req) bufferSize of
        Inl serr \<Rightarrow> Inl serr
      | Inr itr \<Rightarrow> Inr \<lparr>rawItr = itr, processor = newRawLineProcessor\<rparr>)"

definition StreamWithContext ::
  "('c, 'b) transport \<Rightarrow> 'c ReplayRequest \<Rightarrow> int
     \<Rightarrow> (error + 'b replayStreamIterator) \<times> 'c ReplayRequest"
where
  "StreamWithContext tr r bufferSize = (newReplayStreamIterator tr r bufferSize, r)"




text \<open>
  The returns of the iterator's \<^verbatim>\<open>Next\<close>: \<open>Yield\<close> is \<^verbatim>\<open>(&processed, true, nil)\<close>,
  \<open>Exhausted\<close> is \<^verbatim>\<open>(nil, false, nil)\<close>, \<open>Broken serr\<close> is \<^verbatim>\<open>(nil, false, serr)\<close>, and
  \<open>Crashed\<close> is a panic of the processor.
\<close>

datatype 'b yielded = Yield "'b StructLine" | Exhausted | Broken error | Crashed

function Next :: "'b runtime \<Rightarrow> 'b replayStreamIterator \<Rightarrow> 'b yielded \<times> 'b replayStreamIterator" where
  "Next rt i =
     (case raw_Next (rawItr i) of
        (RawEnd serr, raw') \<Rightarrow>
          (case serr of
             Some e \<Rightarrow> (Broken e, i\<lparr>rawItr := raw'\<rparr>)
           | None \<Rightarrow> (Exhausted, i\<lparr>rawItr := raw'\<rparr>))
      | (RawLine line, raw') \<Rightarrow>
          (case processRawLine rt (processor i) line of
             (Emit processed, p') \<Rightarrow> (Yield processed, \<lparr>rawItr = raw', processor = p'\<rparr>)
           | (Skip, p') \<Rightarrow> Next rt \<lparr>rawItr = raw', processor = p'\<rparr>
           | (Fail serr, p') \<Rightarrow> (Broken serr, \<lparr>rawItr = raw', processor = p'\<rparr>)
           | (Panic, p') \<Rightarrow> (Crashed, \<lparr>rawItr = raw', processor = p'\<rparr>)))"
  by pat_completeness auto
termination
  by (relation "measure (\<lambda>(rt, i). length (pending (rawItr i)))")
     (auto simp: raw_Next_def split: list.splits)

declare Next.simps [simp del]

text \<open>
  The consumer of the stream: it calls \<^verbatim>\<open>Next\<close> until a call does not yield a line,
  and keeps the lines it was given together with the way the stream ended.
\<close>

function drain :: "'b runtime \<Rightarrow> 'b replayStreamIterator \<Rightarrow> 'b StructLine list \<times> 'b yielded" where
  "drain rt i =
     (case Next rt i of
        (Yield line, i') \<Rightarrow> (case drain rt i' of (got, fin) \<Rightarrow> (line # got, fin))
      | (fin, _) \<Rightarrow> ([], fin))"
  by pat_completeness auto
termination
proof (relation "measure (\<lambda>(rt, i). length (pending (rawItr i)))")
  show "wf (measure (\<lambda>(rt :: 'b runtime, i :: 'b replayStreamIterator). length (pending (rawItr i))))"
    by simp
next
  fix rt :: "'b runtime" and i i' :: "'b replayStreamIterator" and x line
  assume "(x, i') = Next rt i" and "x = Yield line"
  then have y: "Next rt i = (Yield line, i')"
    by simp
  have "Next rt i = (Yield line, i') \<Longrightarrow> length (pending (rawItr i')) < length (pending (rawItr i))"
  proof (induction rt i rule: Next.induct)
    case (1 rt i)
    show ?case
    proof (cases "pending (rawItr i)")
      case Nil
      with "1.prems" show ?thesis
        by (simp add: Next.simps [of rt i] raw_Next_def split: option.splits)
    next
      case (Cons l rest)
      obtain res p' where pr: "processRawLine rt (processor i) l = (res, p')"
        by (cases "processRawLine rt (processor i) l")
      show ?thesis
      proof (cases res)
        case Skip
        have "length (pending (rawItr i')) < length rest"
          using "1.IH" [of "RawLine l" "(rawItr i)\<lparr>pending := rest\<rparr>" l Skip p']
            "1.prems" Cons pr Skip
          by (simp add: Next.simps [of rt i] raw_Next_def)
        with Cons show ?thesis by simp
      qed (use "1.prems" Cons pr in \<open>auto simp: Next.simps [of rt i] raw_Next_def\<close>)
    qed
  qed
  with y show "((rt, i'), (rt, i)) \<in> measure (\<lambda>(rt, i). length (pending (rawItr i)))"
    by simp
qed

declare drain.simps [simp del]

section \<open>Observations on the processor\<close>

text \<open>The Schema Definition the table holds for a pair of exchange and channel.\<close>

definition definition_of :: "rawLineProcessor \<Rightarrow> string \<Rightarrow> string \<Rightarrow> (string \<rightharpoonup> string) option" where
  "definition_of p exchange channel =
     (case defs p exchange of None \<Rightarrow> None | Some chans \<Rightarrow> chans channel)"

definition channels_of :: "rawLineProcessor \<Rightarrow> string \<Rightarrow> (string \<rightharpoonup> (string \<rightharpoonup> string))" where
  "channels_of p exchange = (case defs p exchange of None \<Rightarrow> Map.empty | Some m \<Rightarrow> m)"

text \<open>
  The two struct literals \<^verbatim>\<open>processRawLine\<close> returns: the line with its payload as it
  came and no definition, and the line with the converted fields and the definition used.
\<close>

definition untyped :: "'b StringLine \<Rightarrow> 'b StructLine" where
  "untyped line =
     \<lparr>StructLine.Exchange = Exchange line, StructLine.Type = Type line,
      StructLine.Timestamp = Timestamp line, StructLine.Channel = Channel line,
      StructLine.Message = Raw (Message line), Definition = None\<rparr>"

definition typed :: "'b StringLine \<Rightarrow> (string \<rightharpoonup> jvalue) \<Rightarrow> (string \<rightharpoonup> string) \<Rightarrow> 'b StructLine" where
  "typed line obj def =
     \<lparr>StructLine.Exchange = Exchange line, StructLine.Type = Type line,
      StructLine.Timestamp = Timestamp line, StructLine.Channel = Channel line,
      StructLine.Message = Fields obj, Definition = Some def\<rparr>"

text \<open>
  The results one processor gives when the lines of a sequence are handed to it in
  order, and the typed lines among them.
\<close>

fun feed :: "'b runtime \<Rightarrow> rawLineProcessor \<Rightarrow> 'b StringLine list \<Rightarrow> 'b result list" where
  "feed rt p [] = []"
| "feed rt p (line # rest) =
     (case processRawLine rt p line of (res, p') \<Rightarrow> res # feed rt p' rest)"

fun emitted :: "'b result list \<Rightarrow> 'b StructLine list" where
  "emitted [] = []"
| "emitted (Emit s # rs) = s # emitted rs"
| "emitted (_ # rs) = emitted rs"

fun proceeds :: "'b result \<Rightarrow> bool" where
  "proceeds (Emit _) = True"
| "proceeds Skip = True"
| "proceeds _ = False"

text \<open>A result at which the download loop and the iterator stop.\<close>

definition halts :: "'b result \<Rightarrow> bool" where
  "halts res = (\<not> proceeds res)"

text \<open>
  The iterator over the raw lines \<open>ls\<close> that ends with \<open>fin\<close>, with its processor in
  state \<open>p\<close>; and what a download returns for a run that a drained stream ended in the
  given way.
\<close>

definition iterator :: "'b StringLine list \<Rightarrow> error option \<Rightarrow> rawLineProcessor \<Rightarrow> 'b replayStreamIterator" where
  "iterator ls fin p = \<lparr>rawItr = \<lparr>pending = ls, failure = fin\<rparr>, processor = p\<rparr>"

fun replayed :: "'b StructLine list \<times> 'b yielded \<Rightarrow> 'b downloaded" where
  "replayed (got, Exhausted) = Lines got"
| "replayed (got, Broken e) = Error e"
| "replayed (got, Crashed) = DownloadPanic"
| "replayed (got, Yield s) = DownloadPanic"

section \<open>A runtime for concrete runs\<close>

text \<open>
  To run the model on concrete lines, the payload is taken to be a JSON document that
  is already parsed (\<open>None\<close> for bytes that are not JSON), and the two decoders follow
  \<^verbatim>\<open>encoding/json\<close> on such a document: an object fills the map, a later duplicate
  key replacing an earlier one; \<^verbatim>\<open>null\<close> leaves an empty map; anything else is an
  error. In a definition every member has to be a JSON string (or \<^verbatim>\<open>null\<close>, which
  leaves the empty string). An out-of-range \<^verbatim>\<open>int64(f)\<close> gives the smallest
  \<^verbatim>\<open>int64\<close>, as on amd64.
\<close>

fun member_types :: "(string \<times> jvalue) list \<Rightarrow> (string \<times> string) list option" where
  "member_types [] = Some []"
| "member_types ((k, JString s) # kvs) = map_option ((#) (k, s)) (member_types kvs)"
| "member_types ((k, JNull) # kvs) = map_option ((#) (k, [])) (member_types kvs)"
| "member_types _ = None"

definition decode_def :: "jvalue option \<Rightarrow> string + (string \<rightharpoonup> string)" where
  "decode_def payload =
     (case payload of
        None \<Rightarrow> Inl ''invalid character''
      | Some JNull \<Rightarrow> Inr Map.empty
      | Some (JObject kvs) \<Rightarrow>
          (case member_types kvs of
             None \<Rightarrow> Inl ''json: cannot unmarshal into Go value of type string''
           | Some ts \<Rightarrow> Inr (map_of (rev ts)))
      | Some _ \<Rightarrow> Inl ''json: cannot unmarshal into Go value of type map[string]string'')"

definition decode_obj :: "jvalue option \<Rightarrow> string + (string \<rightharpoonup> jvalue)" where
  "decode_obj payload =
     (case payload of
        None \<Rightarrow> Inl ''invalid character''
      | Some JNull \<Rightarrow> Inr Map.empty
      | Some (JObject kvs) \<Rightarrow> Inr (map_of (rev kvs))
      | Some _ \<Rightarrow> Inl ''json: cannot unmarshal into Go value of type map[string]interface {}'')"

definition json_runtime ::
  "((string \<rightharpoonup> string) \<Rightarrow> (string \<times> string) list) \<Rightarrow> (jvalue option) runtime" where
  "json_runtime order =
     \<lparr>unmarshal_def = decode_def, unmarshal_obj = decode_obj, range_order = order,
      float_overflow = (\<lambda>_. - (2 ^ 63))\<rparr>"

section \<open>What the conversion loop stores\<close>

text \<open>
  The value one pass of the loop body leaves in place of a field, read off
  \<^verbatim>\<open>replay.go\<close> lines 109 to 117, and the mapping that results when the body has run
  for every entry of the definition.
\<close>

definition loop_value :: "(rat \<Rightarrow> int64) \<Rightarrow> string \<Rightarrow> jvalue \<Rightarrow> jvalue" where
  "loop_value ovf typ v =
     (if typ = ''timestamp'' \<or> typ = ''duration'' then
        (case v of
           JString s \<Rightarrow> (case ParseInt s of Some n \<Rightarrow> JInt64 n | None \<Rightarrow> v)
         | _ \<Rightarrow> v)
      else if typ = ''int'' then
        (case v of JFloat q \<Rightarrow> JInt64 (int64_of_float64 ovf q) | _ \<Rightarrow> v)
      else v)"

definition loop_fields ::
  "(rat \<Rightarrow> int64) \<Rightarrow> (string \<rightharpoonup> string) \<Rightarrow> (string \<rightharpoonup> jvalue) \<Rightarrow> (string \<rightharpoonup> jvalue)" where
  "loop_fields ovf def obj =
     (\<lambda>name. case obj name of
                None \<Rightarrow> None
              | Some v \<Rightarrow>
                  (case def name of
                     None \<Rightarrow> Some v
                   | Some typ \<Rightarrow> Some (loop_value ovf typ v)))"

text \<open>
  A value on which the loop body neither panics nor returns an error, and a message in
  which every field named in the definition is absent, \<^verbatim>\<open>null\<close> or such a value.
\<close>

definition convertible :: "string \<Rightarrow> jvalue \<Rightarrow> bool" where
  "convertible typ v =
     (if typ = ''timestamp'' \<or> typ = ''duration'' then
        (case v of JString s \<Rightarrow> ParseInt s \<noteq> None | _ \<Rightarrow> False)
      else if typ = ''int'' then (case v of JFloat q \<Rightarrow> True | _ \<Rightarrow> False)
      else True)"

definition all_convertible :: "(string \<rightharpoonup> string) \<Rightarrow> (string \<rightharpoonup> jvalue) \<Rightarrow> bool" where
  "all_convertible def obj \<longleftrightarrow>
     (\<forall>name \<in> dom def.
        case obj name of
          None \<Rightarrow> True
        | Some v \<Rightarrow> v = JNull \<or> convertible (the (def name)) v)"

section \<open>The coercion the spec describes\<close>











text \<open>Sample data: one exchange, one channel, the definition and the message of the spec.\<close>

definition trade_types :: "(string \<times> string) list" where
  "trade_types = [(''ts'', ''timestamp''), (''n'', ''int''), (''s'', ''string'')]"

definition trade_def_payload :: "jvalue option" where
  "trade_def_payload =
     Some (JObject [(''ts'', JString ''timestamp''), (''n'', JString ''int''), (''s'', JString ''string'')])"

definition trade_msg_payload :: "jvalue option" where
  "trade_msg_payload =
     Some (JObject [(''ts'', JString ''1620000000000000000''), (''n'', JFloat 42), (''s'', JString ''x'')])"

definition rt0 :: "(jvalue option) runtime" where
  "rt0 = json_runtime (\<lambda>_. trade_types)"

definition msg_line :: "jvalue option \<Rightarrow> (jvalue option) StringLine" where
  "msg_line payload =
     \<lparr>Exchange = ''bitmex'', Type = LineTypeMessage, Timestamp = 1, Channel = Some ''trade'',
      Message = payload\<rparr>"

definition start_line :: "(jvalue option) StringLine" where
  "start_line =
     \<lparr>Exchange = ''bitmex'', Type = LineTypeStart, Timestamp = 0, Channel = None, Message = None\<rparr>"

definition end_line :: "(jvalue option) StringLine" where
  "end_line =
     \<lparr>Exchange = ''bitmex'', Type = LineTypeOther ''end'', Timestamp = 2, Channel = None,
      Message = None\<rparr>"

definition null_msg_payload :: "jvalue option" where
  "null_msg_payload = Some (JObject [(''ts'', JNull), (''n'', JFloat 42), (''x'', JBool True)])"



definition p_trade :: rawLineProcessor where
  "p_trade = \<lparr>defs = [''bitmex'' \<mapsto> [''trade'' \<mapsto> map_of trade_types]]\<rparr>"

text \<open>
  A transport that serves four lines (start, definition, message, end), one whose third
  line has a payload that is not JSON, and a request.
\<close>

definition sample_lines :: "(jvalue option) StringLine list" where
  "sample_lines = [start_line, msg_line trade_def_payload, msg_line trade_msg_payload, end_line]"

definition broken_lines :: "(jvalue option) StringLine list" where
  "broken_lines = [start_line, msg_line trade_def_payload, msg_line None, end_line]"

definition tr0 :: "(unit, jvalue option) transport" where
  "tr0 = \<lparr>bulkFetch = (\<lambda>_ _. Inr sample_lines),
          streamFetch = (\<lambda>_ _. Inr \<lparr>pending = sample_lines, failure = None\<rparr>)\<rparr>"

definition tr1 :: "(unit, jvalue option) transport" where
  "tr1 = \<lparr>bulkFetch = (\<lambda>_ _. Inr broken_lines),
          streamFetch = (\<lambda>_ _. Inr \<lparr>pending = broken_lines, failure = None\<rparr>)\<rparr>"

definition r0 :: "unit ReplayRequest" where
  "r0 = \<lparr>req_cli = (), req_filter = [''bitmex'' \<mapsto> [''trade'']], req_start = 0,
         req_end = 60000000000\<rparr>"




lemmas sample_defs =
  trade_types_def trade_def_payload_def trade_msg_payload_def rt0_def msg_line_def
  start_line_def end_line_def p_trade_def null_msg_payload_def json_runtime_def decode_def_def decode_obj_def
  newRawLineProcessor_def


lemmas eval_defs =
  processRawLine_def definition_of_def Let_def ParseInt_def ParseUint_def is_digit_def
  int64_of_float64_def truncate_float_def

section \<open>Case analysis of the processor\<close>

lemma processRawLine_Start:
  "Type line = LineTypeStart \<Longrightarrow>
   processRawLine rt p line = (Emit (untyped line), p\<lparr>defs := (defs p)(Exchange line := None)\<rparr>)"
  by (simp add: processRawLine_def untyped_def)

lemma processRawLine_Other:
  "Type line = LineTypeOther t \<Longrightarrow> processRawLine rt p line = (Emit (untyped line), p)"
  by (simp add: processRawLine_def untyped_def)

lemma processRawLine_nil_Channel:
  "Type line = LineTypeMessage \<Longrightarrow> Channel line = None \<Longrightarrow> processRawLine rt p line = (Panic, p)"
  by (simp add: processRawLine_def)

lemma processRawLine_first:
  "Type line = LineTypeMessage \<Longrightarrow> Channel line = Some c \<Longrightarrow>
   definition_of p (Exchange line) c = None \<Longrightarrow>
   processRawLine rt p line =
     (case unmarshal_def rt (Message line) of
        Inl serr \<Rightarrow>
          (Fail (DefUpdateUnmarshal serr),
           p\<lparr>defs := (defs p)(Exchange line \<mapsto> channels_of p (Exchange line))\<rparr>)
      | Inr d \<Rightarrow>
          (Skip, p\<lparr>defs := (defs p)(Exchange line \<mapsto> (channels_of p (Exchange line))(c \<mapsto> d))\<rparr>))"
  by (cases "defs p (Exchange line)")
     (simp_all add: processRawLine_def definition_of_def channels_of_def Let_def map_upd_triv
        split: sum.splits)

lemma processRawLine_later:
  "Type line = LineTypeMessage \<Longrightarrow> Channel line = Some c \<Longrightarrow>
   definition_of p (Exchange line) c = Some d \<Longrightarrow>
   processRawLine rt p line =
     (case unmarshal_obj rt (Message line) of
        Inl serr \<Rightarrow> (Fail (MessageUnmarshal serr), p)
      | Inr msgObj \<Rightarrow>
          (case convert_fields (float_overflow rt) (range_order rt d) msgObj of
             Failed e \<Rightarrow> (Fail e, p)
           | Panicked \<Rightarrow> (Panic, p)
           | Done obj \<Rightarrow> (Emit (typed line obj d), p)))"
  by (cases "defs p (Exchange line)")
     (simp_all add: processRawLine_def definition_of_def Let_def typed_def
        split: sum.splits converted.splits)


lemma definition_of_upd:
  "definition_of (p\<lparr>defs := (defs p)(E \<mapsto> chans)\<rparr>) E' C = (if E' = E then chans C else definition_of p E' C)"
  by (simp add: definition_of_def)

lemma definition_of_del:
  "definition_of (p\<lparr>defs := (defs p)(E := None)\<rparr>) E' C = (if E' = E then None else definition_of p E' C)"
  by (simp add: definition_of_def)

lemma channels_of_lookup: "channels_of p E C = definition_of p E C"
  by (simp add: channels_of_def definition_of_def split: option.splits)

lemma processRawLine_cases:
  obtains (start) "Type line = LineTypeStart"
  | (other) t where "Type line = LineTypeOther t"
  | (nil_channel) "Type line = LineTypeMessage" "Channel line = None"
  | (first) c where "Type line = LineTypeMessage" "Channel line = Some c"
      "definition_of p (Exchange line) c = None"
  | (later) c d where "Type line = LineTypeMessage" "Channel line = Some c"
      "definition_of p (Exchange line) c = Some d"
  by (cases "Type line"; cases "Channel line"; cases "definition_of p (Exchange line) (the (Channel line))") auto

section \<open>The type conversion loop\<close>

lemma loop_value_JNull [simp]: "loop_value ovf typ JNull = JNull"
  by (simp add: loop_value_def)

lemma convert_fields_skip:
  "msgObj name = None \<or> msgObj name = Some JNull \<Longrightarrow>
   convert_fields ovf ((name, typ) # rest) msgObj = convert_fields ovf rest msgObj"
  by auto

lemma loop_fields_Cons_skip:
  assumes "obj name = None \<or> obj name = Some JNull"
  shows "loop_fields ovf (map_of ((name, typ) # rest)) obj = loop_fields ovf (map_of rest) obj"
  using assms by (auto simp: loop_fields_def fun_eq_iff split: option.splits)

lemma loop_fields_Cons_upd:
  assumes "obj name = Some v" and "name \<notin> fst ` set rest"
  shows "loop_fields ovf (map_of rest) (obj(name \<mapsto> loop_value ovf typ v)) =
         loop_fields ovf (map_of ((name, typ) # rest)) obj"
proof
  fix n
  have "map_of rest name = None"
    using assms(2) by (simp add: map_of_eq_None_iff)
  then show "loop_fields ovf (map_of rest) (obj(name \<mapsto> loop_value ovf typ v)) n =
        loop_fields ovf (map_of ((name, typ) # rest)) obj n"
    using assms(1) by (auto simp: loop_fields_def split: option.splits)
qed

text \<open>What the loop returns when it runs to its end, for any order without repetition.\<close>

lemma convert_fields_Done:
  "distinct (map fst kvs) \<Longrightarrow> convert_fields ovf kvs obj = Done m \<Longrightarrow>
   m = loop_fields ovf (map_of kvs) obj"
proof (induction kvs arbitrary: obj)
  case Nil
  then show ?case by (auto simp: loop_fields_def fun_eq_iff split: option.splits)
next
  case (Cons kv rest)
  obtain name ty where kv: "kv = (name, ty)" by (cases kv)
  from Cons.prems kv have fresh: "name \<notin> fst ` set rest" and d: "distinct (map fst rest)"
    by auto
  show ?case
  proof (cases "obj name = None \<or> obj name = Some JNull")
    case True
    then show ?thesis
      using Cons.IH [OF d, of obj] Cons.prems(2) kv
      by (simp only: convert_fields_skip loop_fields_Cons_skip)
  next
    case False
    then obtain v where v: "obj name = Some v" "v \<noteq> JNull" by auto
    have step: "convert_fields ovf rest (obj(name \<mapsto> loop_value ovf ty v)) = Done m"
      using Cons.prems(2) kv v
      by (cases v) (auto simp: loop_value_def map_upd_triv split: if_splits option.splits)
    have "m = loop_fields ovf (map_of rest) (obj(name \<mapsto> loop_value ovf ty v))"
      by (rule Cons.IH [OF d step])
    also have "\<dots> = loop_fields ovf (map_of ((name, ty) # rest)) obj"
      using v(1) fresh by (rule loop_fields_Cons_upd)
    finally show ?thesis
      unfolding kv .
  qed
qed


text \<open>The loop runs to its end on a message whose fields have the expected shapes.\<close>

lemma convert_fields_convertible:
  "distinct (map fst kvs) \<Longrightarrow>
   (\<forall>(n, t) \<in> set kvs. case obj n of None \<Rightarrow> True | Some v \<Rightarrow> v = JNull \<or> convertible t v) \<Longrightarrow>
   \<exists>m. convert_fields ovf kvs obj = Done m"
proof (induction kvs arbitrary: obj)
  case Nil
  then show ?case by simp
next
  case (Cons kv rest)
  obtain name ty where kv: "kv = (name, ty)" by (cases kv)
  from Cons.prems kv have fresh: "name \<notin> fst ` set rest" and d: "distinct (map fst rest)"
    by auto
  have keep: "\<forall>(n, t) \<in> set rest.
      case (obj(name \<mapsto> x)) n of None \<Rightarrow> True | Some v \<Rightarrow> v = JNull \<or> convertible t v" for x
    using Cons.prems(2) fresh by (auto simp: rev_image_eqI)
  have here: "case obj name of None \<Rightarrow> True | Some v \<Rightarrow> v = JNull \<or> convertible ty v"
    using Cons.prems(2) kv by simp
  obtain m0 where same: "convert_fields ovf rest obj = Done m0"
    using Cons.IH [OF d, of obj] Cons.prems(2) by auto
  have upd: "\<exists>m. convert_fields ovf rest (obj(name \<mapsto> x)) = Done m" for x
    by (rule Cons.IH [OF d keep])
  show ?case
  proof (cases "obj name")
    case None
    with same kv show ?thesis by simp
  next
    case (Some v)
    show ?thesis
    proof (cases "v = JNull")
      case True
      with Some same kv show ?thesis by simp
    next
      case False
      with Some here have ok: "convertible ty v" by simp
      consider (stamp) "ty = ''timestamp'' \<or> ty = ''duration''"
        | (int) "ty = ''int''"
        | (plain) "\<not> (ty = ''timestamp'' \<or> ty = ''duration'')" "ty \<noteq> ''int''"
        by blast
      then show ?thesis
      proof cases
        case stamp
        with ok obtain s n where "v = JString s" "ParseInt s = Some n"
          by (cases v) (auto simp: convertible_def)
        with stamp Some kv upd [of "JInt64 n"] show ?thesis
          by auto
      next
        case int
        with ok obtain q where "v = JFloat q"
          by (cases v) (auto simp: convertible_def)
        with int Some kv upd [of "JInt64 (int64_of_float64 ovf q)"] show ?thesis
          by auto
      next
        case plain
        with Some False same kv show ?thesis
          by (cases v) auto
      qed
    qed
  qed
qed

text \<open>An error of the loop comes from a string that \<^verbatim>\<open>ParseInt\<close> refused.\<close>

lemma convert_fields_Failed:
  "distinct (map fst kvs) \<Longrightarrow> convert_fields ovf kvs obj = Failed e \<Longrightarrow>
   \<exists>(n, t) \<in> set kvs. \<exists>s. obj n = Some (JString s) \<and> ParseInt s = None \<and> e = TypeConversion s"
proof (induction kvs arbitrary: obj)
  case Nil
  then show ?case by simp
next
  case (Cons kv rest)
  obtain name ty where kv: "kv = (name, ty)" by (cases kv)
  from Cons.prems kv have fresh: "name \<notin> fst ` set rest" and d: "distinct (map fst rest)"
    by auto
  let ?cause = "\<lambda>obj. \<exists>(n, t) \<in> set rest. \<exists>s. obj n = Some (JString s) \<and> ParseInt s = None \<and> e = TypeConversion s"
  have later_upd: "?cause obj" if "convert_fields ovf rest (obj(name \<mapsto> x)) = Failed e" for x
  proof -
    from Cons.IH [OF d that] obtain n t s where
      "(n, t) \<in> set rest" "(obj(name \<mapsto> x)) n = Some (JString s)" "ParseInt s = None"
      "e = TypeConversion s"
      by auto
    moreover from this fresh have "n \<noteq> name"
      by (auto simp: rev_image_eqI)
    ultimately show ?thesis by auto
  qed
  have later_same: "?cause obj" if "convert_fields ovf rest obj = Failed e"
    using Cons.IH [OF d that] .
  show ?case
  proof (cases "obj name")
    case None
    with Cons.prems(2) kv later_same show ?thesis by auto
  next
    case (Some v)
    show ?thesis
    proof (cases v)
      case (JString s)
      show ?thesis
      proof (cases "ParseInt s")
        case None
        with JString Some Cons.prems(2) kv later_same show ?thesis
          by (auto split: if_splits)
      next
        case (Some n)
        with JString \<open>obj name = Some v\<close> Cons.prems(2) kv later_same later_upd [of "JInt64 n"]
        show ?thesis
          by (auto split: if_splits)
      qed
    next
      case (JFloat q)
      with Some Cons.prems(2) kv later_same later_upd [of "JInt64 (int64_of_float64 ovf q)"]
      show ?thesis
        by (auto split: if_splits)
    qed (use Some Cons.prems(2) kv later_same in \<open>auto split: if_splits\<close>)
  qed
qed


lemma enumerates_entry:
  "enumerates kvs d \<Longrightarrow> (n, t) \<in> set kvs \<Longrightarrow> d n = Some t"
  by (auto simp: enumerates_def)

lemma enumerates_entries_ok:
  assumes "enumerates kvs d" and "all_convertible d obj"
  shows "\<forall>(n, t) \<in> set kvs. case obj n of None \<Rightarrow> True | Some v \<Rightarrow> v = JNull \<or> convertible t v"
proof (clarify)
  fix n t
  assume "(n, t) \<in> set kvs"
  with assms(1) have dn: "d n = Some t" by (rule enumerates_entry)
  then have "n \<in> dom d" by (simp add: dom_def)
  with assms(2) have "case obj n of None \<Rightarrow> True | Some v \<Rightarrow> v = JNull \<or> convertible (the (d n)) v"
    unfolding all_convertible_def by (rule bspec)
  with dn show "case obj n of None \<Rightarrow> True | Some v \<Rightarrow> v = JNull \<or> convertible t v"
    by (cases "obj n") simp_all
qed

lemma convert_fields_all_convertible:
  assumes "enumerates kvs d" and "all_convertible d obj"
  shows "convert_fields ovf kvs obj = Done (loop_fields ovf d obj)"
proof -
  from assms(1) have dist: "distinct (map fst kvs)" and d: "map_of kvs = d"
    by (simp_all add: enumerates_def)
  obtain m where m: "convert_fields ovf kvs obj = Done m"
    using convert_fields_convertible [OF dist enumerates_entries_ok [OF assms]] by blast
  with convert_fields_Done [OF dist m] d show ?thesis by simp
qed

section \<open>The code against the spec's coercion\<close>











section \<open>The two consumers of the raw lines\<close>

lemma Next_Nil:
  "Next rt (iterator [] fin p) =
     ((case fin of Some e \<Rightarrow> Broken e | None \<Rightarrow> Exhausted), iterator [] fin p)"
  by (subst Next.simps) (simp add: iterator_def raw_Next_def split: option.splits)

lemma Next_Cons:
  "Next rt (iterator (line # rest) fin p) =
     (case processRawLine rt p line of
        (Emit processed, p') \<Rightarrow> (Yield processed, iterator rest fin p')
      | (Skip, p') \<Rightarrow> Next rt (iterator rest fin p')
      | (Fail serr, p') \<Rightarrow> (Broken serr, iterator rest fin p')
      | (Panic, p') \<Rightarrow> (Crashed, iterator rest fin p'))"
  by (subst Next.simps) (simp add: iterator_def raw_Next_def split: prod.splits result.splits)

lemma drain_Nil:
  "drain rt (iterator [] fin p) = ([], case fin of Some e \<Rightarrow> Broken e | None \<Rightarrow> Exhausted)"
  by (simp add: drain.simps [of rt "iterator [] fin p"] Next_Nil split: option.splits)

lemma drain_Cons:
  "drain rt (iterator (line # rest) fin p) =
     (case processRawLine rt p line of
        (Emit processed, p') \<Rightarrow>
          (case drain rt (iterator rest fin p') of (got, end') \<Rightarrow> (processed # got, end'))
      | (Skip, p') \<Rightarrow> drain rt (iterator rest fin p')
      | (Fail serr, p') \<Rightarrow> ([], Broken serr)
      | (Panic, p') \<Rightarrow> ([], Crashed))"
proof -
  obtain res p' where pr: "processRawLine rt p line = (res, p')"
    by (cases "processRawLine rt p line")
  show ?thesis
  proof (cases res)
    case Skip
    have "drain rt (iterator (line # rest) fin p) =
        (case Next rt (iterator rest fin p') of
           (Yield l, i') \<Rightarrow> (case drain rt i' of (got, end') \<Rightarrow> (l # got, end'))
         | (end', _) \<Rightarrow> ([], end'))"
      using pr Skip by (simp add: drain.simps [of rt "iterator (line # rest) fin p"] Next_Cons)
    also have "\<dots> = drain rt (iterator rest fin p')"
      by (simp add: drain.simps [of rt "iterator rest fin p'"])
    finally show ?thesis using pr Skip by simp
  qed (simp_all add: pr drain.simps [of rt "iterator (line # rest) fin p"] Next_Cons)
qed

lemma drain_never_Yield: "snd (drain rt (iterator ls fin p)) \<noteq> Yield s"
proof (induction ls arbitrary: p)
  case Nil
  show ?case by (simp add: drain_Nil split: option.splits)
next
  case (Cons line rest)
  obtain res p' where pr: "processRawLine rt p line = (res, p')"
    by (cases "processRawLine rt p line")
  show ?case
    using Cons [of p'] pr
    by (cases res) (auto simp: drain_Cons split: prod.splits)
qed

lemma download_loop_drain:
  "download_loop rt p ls acc =
     (case drain rt (iterator ls None p) of
        (got, Exhausted) \<Rightarrow> Lines (acc @ got)
      | (got, end') \<Rightarrow> replayed (got, end'))"
proof (induction ls arbitrary: p acc)
  case Nil
  show ?case by (simp add: drain_Nil)
next
  case (Cons line rest)
  obtain res p' where pr: "processRawLine rt p line = (res, p')"
    by (cases "processRawLine rt p line")
  show ?case
  proof (cases res)
    case (Emit processed)
    obtain got end' where dr: "drain rt (iterator rest None p') = (got, end')"
      by (cases "drain rt (iterator rest None p')")
    with Cons [of p' "acc @ [processed]"] pr Emit show ?thesis
      by (cases end') (simp_all add: drain_Cons)
  next
    case Skip
    with Cons [of p' acc] pr show ?thesis
      by (simp add: drain_Cons)
  qed (simp_all add: pr drain_Cons)
qed


lemma download_loop_replayed:
  "download_loop rt p ls [] = replayed (drain rt (iterator ls None p))"
proof -
  obtain got end' where dr: "drain rt (iterator ls None p) = (got, end')"
    by (cases "drain rt (iterator ls None p)")
  then show ?thesis
    by (cases end') (simp_all add: download_loop_drain)
qed

lemma replayed_Lines: "replayed (got, end') = Lines res \<longleftrightarrow> got = res \<and> end' = Exhausted"
  by (cases end') auto

lemma replayed_Error: "replayed (got, end') = Error e \<longleftrightarrow> end' = Broken e"
  by (cases end') auto

lemma replayed_Panic: "replayed (got, end') = DownloadPanic \<longleftrightarrow> end' = Crashed \<or> (\<exists>s. end' = Yield s)"
  by (cases end') auto

lemma download_loop_feed:
  "download_loop rt p ls acc =
     (case find halts (feed rt p ls) of
        None \<Rightarrow> Lines (acc @ emitted (feed rt p ls))
      | Some (Fail e) \<Rightarrow> Error e
      | Some _ \<Rightarrow> DownloadPanic)"
proof (induction ls arbitrary: p acc)
  case Nil
  show ?case by simp
next
  case (Cons line rest)
  obtain res p' where pr: "processRawLine rt p line = (res, p')"
    by (cases "processRawLine rt p line")
  show ?case
  proof (cases res)
    case (Emit processed)
    with Cons [of p' "acc @ [processed]"] pr show ?thesis
      by (simp add: halts_def split: option.splits)
  next
    case Skip
    with Cons [of p' acc] pr show ?thesis
      by (simp add: halts_def split: option.splits)
  qed (simp_all add: pr halts_def)
qed

lemma find_halts_None: "find halts rs = None \<longleftrightarrow> (\<forall>res \<in> set rs. proceeds res)"
  by (auto simp: find_None_iff halts_def)

lemma find_halts_first:
  assumes "k < length rs" and "\<not> proceeds (rs ! k)" and "\<forall>j < k. proceeds (rs ! j)"
  shows "find halts rs = Some (rs ! k)"
  using assms by (auto simp: find_Some_iff halts_def)

section \<open>Requests\<close>




section \<open>The schema table\<close>

text \<open>
  C3. A message line of a pair (exchange, channel) for which the table holds no
  definition: the payload is decoded as a Schema Definition. When the decoder succeeds,
  the definition is stored for the pair and nothing is emitted (\<^verbatim>\<open>ok == false\<close>, nil
  error). When it fails, the call returns the decode error, emits nothing, and the table
  holds the same definitions as before.
\<close>

theorem C3_first_message_line_is_stored:
  assumes "Type line = LineTypeMessage" and "Channel line = Some c"
    and "definition_of p (Exchange line) c = None"
  shows "case unmarshal_def rt (Message line) of
           Inr d \<Rightarrow>
             fst (processRawLine rt p line) = Skip \<and>
             definition_of (snd (processRawLine rt p line)) (Exchange line) c = Some d
         | Inl serr \<Rightarrow>
             fst (processRawLine rt p line) = Fail (DefUpdateUnmarshal serr) \<and>
             is_DecodeError (DefUpdateUnmarshal serr) \<and>
             (\<forall>E C. definition_of (snd (processRawLine rt p line)) E C = definition_of p E C)"
  using assms
  by (simp add: processRawLine_first definition_of_upd channels_of_lookup split: sum.splits)

theorem C3_witness:
  "Type (msg_line trade_def_payload) = LineTypeMessage \<and>
   Channel (msg_line trade_def_payload) = Some ''trade'' \<and>
   definition_of newRawLineProcessor (Exchange (msg_line trade_def_payload)) ''trade'' = None \<and>
   fst (processRawLine rt0 newRawLineProcessor (msg_line trade_def_payload)) = Skip \<and>
   definition_of (snd (processRawLine rt0 newRawLineProcessor (msg_line trade_def_payload)))
     ''bitmex'' ''trade'' = Some (map_of (rev trade_types)) \<and>
   fst (processRawLine rt0 newRawLineProcessor (msg_line None)) =
     Fail (DefUpdateUnmarshal ''invalid character'')"
  using C3_first_message_line_is_stored
      [of "msg_line trade_def_payload" "''trade''" newRawLineProcessor rt0]
    C3_first_message_line_is_stored [of "msg_line None" "''trade''" newRawLineProcessor rt0]
  by (simp add: sample_defs definition_of_def)

text \<open>
  C2. A Start line of exchange E is emitted with its payload untouched and removes the
  whole entry of E from the table. A message line of E, on any channel, that comes next
  is decoded as a definition: stored and not emitted (or refused with a decode error),
  whatever the table held for E before the Start line.
\<close>

theorem C2_start_resets_exchange:
  assumes "Type line = LineTypeStart"
  shows "\<exists>p'. processRawLine rt p line = (Emit (untyped line), p') \<and>
           defs p' (Exchange line) = None \<and>
           (\<forall>m c. Type m = LineTypeMessage \<and> Exchange m = Exchange line \<and> Channel m = Some c \<longrightarrow>
              (case unmarshal_def rt (Message m) of
                 Inr d \<Rightarrow>
                   fst (processRawLine rt p' m) = Skip \<and>
                   definition_of (snd (processRawLine rt p' m)) (Exchange line) c = Some d
               | Inl serr \<Rightarrow> fst (processRawLine rt p' m) = Fail (DefUpdateUnmarshal serr)))"
proof -
  let ?p' = "p\<lparr>defs := (defs p)(Exchange line := None)\<rparr>"
  have gone: "definition_of ?p' (Exchange line) c = None" for c
    by (simp add: definition_of_def)
  have "case unmarshal_def rt (Message m) of
          Inr d \<Rightarrow>
            fst (processRawLine rt ?p' m) = Skip \<and>
            definition_of (snd (processRawLine rt ?p' m)) (Exchange line) c = Some d
        | Inl serr \<Rightarrow> fst (processRawLine rt ?p' m) = Fail (DefUpdateUnmarshal serr)"
    if "Type m = LineTypeMessage" "Exchange m = Exchange line" "Channel m = Some c" for m c
    using that gone [of c]
    by (simp add: processRawLine_first definition_of_upd split: sum.splits)
  then show ?thesis
    using assms by (simp add: processRawLine_Start)
qed

theorem C2_witness:
  "Type start_line = LineTypeStart \<and>
   definition_of p_trade ''bitmex'' ''trade'' = Some (map_of trade_types) \<and>
   fst (processRawLine rt0 p_trade (msg_line trade_def_payload)) \<noteq> Skip \<and>
   fst (processRawLine rt0 p_trade start_line) = Emit (untyped start_line) \<and>
   fst (processRawLine rt0 (snd (processRawLine rt0 p_trade start_line))
          (msg_line trade_def_payload)) = Skip"
  using C2_start_resets_exchange [of start_line rt0 p_trade]
  by (simp add: sample_defs eval_defs untyped_def)

text \<open>
  C9, as the code has it. An entry for an exchange appears only through a message line of
  that exchange (a line of another type never creates one), and every message line with
  a channel leaves an entry for its exchange. A definition for a pair (exchange, channel)
  that had none appears only through a message line of that pair, whose payload is the
  definition and which is not emitted; once stored, it stays until a Start line.
\<close>

theorem C9_entries_created_by_message_lines:
  assumes "processRawLine rt p line = (res, p')"
  shows "(defs p E = None \<and> defs p' E \<noteq> None \<longrightarrow>
            Type line = LineTypeMessage \<and> Exchange line = E \<and> Channel line \<noteq> None) \<and>
         (Type line = LineTypeMessage \<and> Channel line \<noteq> None \<longrightarrow> defs p' (Exchange line) \<noteq> None) \<and>
         (definition_of p E C = None \<and> definition_of p' E C = Some d \<longrightarrow>
            Type line = LineTypeMessage \<and> Exchange line = E \<and> Channel line = Some C \<and>
            unmarshal_def rt (Message line) = Inr d \<and> res = Skip) \<and>
         (definition_of p E C = Some d \<and> Type line \<noteq> LineTypeStart \<longrightarrow>
            definition_of p' E C = Some d)"
proof (cases rule: processRawLine_cases [where line = line and p = p])
  case start
  with assms show ?thesis by (auto simp: processRawLine_Start definition_of_del split: if_splits)
next
  case (other t)
  with assms show ?thesis by (auto simp: processRawLine_Other)
next
  case nil_channel
  with assms show ?thesis by (auto simp: processRawLine_nil_Channel)
next
  case (first c)
  with assms show ?thesis
    by (auto simp: processRawLine_first definition_of_upd channels_of_lookup
        split: sum.splits if_splits)
next
  case (later c d')
  then have "defs p (Exchange line) \<noteq> None"
    by (auto simp: definition_of_def split: option.splits)
  with later assms show ?thesis
    by (auto simp: processRawLine_later split: sum.splits converted.splits)
qed


theorem C9_witness:
  "processRawLine rt0 newRawLineProcessor (msg_line trade_def_payload) =
     (fst (processRawLine rt0 newRawLineProcessor (msg_line trade_def_payload)),
      snd (processRawLine rt0 newRawLineProcessor (msg_line trade_def_payload))) \<and>
   defs newRawLineProcessor ''bitmex'' = None \<and>
   defs (snd (processRawLine rt0 newRawLineProcessor (msg_line trade_def_payload))) ''bitmex'' \<noteq> None \<and>
   Type (msg_line trade_def_payload) = LineTypeMessage \<and>
   unmarshal_def rt0 (Message (msg_line trade_def_payload)) = Inr (map_of (rev trade_types))"
  using C9_entries_created_by_message_lines
      [of rt0 newRawLineProcessor "msg_line trade_def_payload"
        "fst (processRawLine rt0 newRawLineProcessor (msg_line trade_def_payload))"
        "snd (processRawLine rt0 newRawLineProcessor (msg_line trade_def_payload))"
        "''bitmex''" "''trade''" "map_of (rev trade_types)"]
  by (simp add: sample_defs eval_defs)

text \<open>
  The first line seen for an exchange, when it is not a message line, leaves the table
  without an entry for the exchange: here an end line, and a Start line.
\<close>

theorem C9_counterexample:
  "defs (snd (processRawLine rt0 newRawLineProcessor end_line)) ''bitmex'' = None \<and>
   defs (snd (processRawLine rt0 newRawLineProcessor start_line)) ''bitmex'' = None"
  by (simp add: sample_defs eval_defs)

text \<open>
  C10. One call changes nothing in the table outside the entry of the line's own
  exchange. For a message line, the definitions of the other channels of that exchange
  are unchanged too. A call that returns an error leaves every pair with the definition
  it had.
\<close>

theorem C10_frame:
  assumes "processRawLine rt p line = (res, p')"
  shows "(\<forall>E. E \<noteq> Exchange line \<longrightarrow> defs p' E = defs p E) \<and>
         (Type line = LineTypeMessage \<longrightarrow>
            (\<forall>C. Channel line \<noteq> Some C \<longrightarrow>
               definition_of p' (Exchange line) C = definition_of p (Exchange line) C)) \<and>
         (\<forall>e. res = Fail e \<longrightarrow> (\<forall>E C. definition_of p' E C = definition_of p E C))"
proof (cases rule: processRawLine_cases [where line = line and p = p])
  case start
  with assms show ?thesis by (auto simp: processRawLine_Start)
next
  case (other t)
  with assms show ?thesis by (auto simp: processRawLine_Other)
next
  case nil_channel
  with assms show ?thesis by (auto simp: processRawLine_nil_Channel)
next
  case (first c)
  with assms show ?thesis
    by (auto simp: processRawLine_first definition_of_upd channels_of_lookup split: sum.splits)
next
  case (later c d)
  with assms show ?thesis
    by (auto simp: processRawLine_later split: sum.splits converted.splits)
qed

theorem C10_witness:
  "processRawLine rt0 p_trade (msg_line None) =
     (Fail (MessageUnmarshal ''invalid character''), p_trade) \<and>
   defs p_trade ''bitmex'' \<noteq> None \<and>
   definition_of (snd (processRawLine rt0 p_trade (msg_line None))) ''bitmex'' ''trade'' =
     definition_of p_trade ''bitmex'' ''trade''"
  using C10_frame [of rt0 p_trade "msg_line None"
      "Fail (MessageUnmarshal ''invalid character'')" p_trade]
  by (simp add: sample_defs eval_defs)

section \<open>Typed messages\<close>




text \<open>
  C7. The type assertions of the conversion loop panic on a value of another dynamic
  type: a string under an \<open>int\<close> tag, a number under a \<open>timestamp\<close> tag. No error is
  returned there. A string that is not a decimal number under a \<open>timestamp\<close> tag does
  give the error return.
\<close>

theorem C7_mistyped_field_panics:
  "fst (processRawLine rt0 p_trade (msg_line (Some (JObject [(''n'', JString ''abc'')])))) = Panic \<and>
   fst (processRawLine rt0 p_trade (msg_line (Some (JObject [(''ts'', JFloat 5)])))) = Panic \<and>
   fst (processRawLine rt0 p_trade (msg_line (Some (JObject [(''ts'', JString ''abc'')])))) =
     Fail (TypeConversion ''abc'')"
  by (simp add: sample_defs eval_defs)

text \<open>
  C8. For a message line of a pair that has a definition: in the emitted line, a field
  that the definition does not name, or whose value is \<^verbatim>\<open>null\<close>, has the value the
  decoder gave it. An error of the call always comes from a field that holds a string,
  so never from such a field; and when every field the definition names is absent or
  \<^verbatim>\<open>null\<close>, the line is emitted with the decoded mapping as it is.
\<close>

theorem C8_null_and_undeclared_pass_through:
  assumes "Type line = LineTypeMessage" and "Channel line = Some c"
    and "definition_of p (Exchange line) c = Some d"
    and "unmarshal_obj rt (Message line) = Inr obj"
    and "enumerates (range_order rt d) d"
  shows "(\<forall>sl. fst (processRawLine rt p line) = Emit sl \<longrightarrow>
            (\<exists>m. StructLine.Message sl = Fields m \<and>
               (\<forall>name. d name = None \<or> obj name = Some JNull \<longrightarrow> m name = obj name))) \<and>
         (\<forall>e. fst (processRawLine rt p line) = Fail e \<longrightarrow>
            (\<exists>name ty s. d name = Some ty \<and> obj name = Some (JString s) \<and> ParseInt s = None \<and>
               e = TypeConversion s)) \<and>
         ((\<forall>name \<in> dom d. obj name = None \<or> obj name = Some JNull) \<longrightarrow>
            fst (processRawLine rt p line) = Emit (typed line obj d))"
proof -
  let ?kvs = "range_order rt d"
  let ?ovf = "float_overflow rt"
  from assms(5) have dist: "distinct (map fst ?kvs)" and d: "map_of ?kvs = d"
    by (simp_all add: enumerates_def)
  have run: "processRawLine rt p line =
      (case convert_fields ?ovf ?kvs obj of
         Failed e \<Rightarrow> (Fail e, p) | Panicked \<Rightarrow> (Panic, p) | Done m \<Rightarrow> (Emit (typed line m d), p))"
    using assms(4) by (simp add: processRawLine_later [OF assms(1-3)])
  have pass: "loop_fields ?ovf d obj name = obj name" if "d name = None \<or> obj name = Some JNull" for name
    using that by (auto simp: loop_fields_def split: option.splits)
  have a: "\<exists>m. StructLine.Message sl = Fields m \<and>
               (\<forall>name. d name = None \<or> obj name = Some JNull \<longrightarrow> m name = obj name)"
    if "fst (processRawLine rt p line) = Emit sl" for sl
  proof -
    from that run obtain m where m: "convert_fields ?ovf ?kvs obj = Done m" "sl = typed line m d"
      by (auto split: converted.splits)
    from convert_fields_Done [OF dist m(1)] d have "m = loop_fields ?ovf d obj" by simp
    with m(2) pass show ?thesis by (simp add: typed_def)
  qed
  have b: "\<exists>name ty s. d name = Some ty \<and> obj name = Some (JString s) \<and> ParseInt s = None \<and>
               e = TypeConversion s"
    if "fst (processRawLine rt p line) = Fail e" for e
  proof -
    from that run have "convert_fields ?ovf ?kvs obj = Failed e"
      by (auto split: converted.splits)
    from convert_fields_Failed [OF dist this] obtain n t s where
      "(n, t) \<in> set ?kvs" "obj n = Some (JString s)" "ParseInt s = None" "e = TypeConversion s"
      by auto
    with enumerates_entry [OF assms(5)] show ?thesis by blast
  qed
  have c: "fst (processRawLine rt p line) = Emit (typed line obj d)"
    if all: "\<forall>name \<in> dom d. obj name = None \<or> obj name = Some JNull"
  proof -
    have w: "all_convertible d obj"
      unfolding all_convertible_def
    proof
      fix name
      assume "name \<in> dom d"
      with all have "obj name = None \<or> obj name = Some JNull" by (rule bspec)
      then show "case obj name of None \<Rightarrow> True | Some v \<Rightarrow> v = JNull \<or> convertible (the (d name)) v"
        by auto
    qed
    have "loop_fields ?ovf d obj = obj"
    proof
      fix name
      show "loop_fields ?ovf d obj name = obj name"
      proof (cases "d name")
        case None
        then show ?thesis by (simp add: pass)
      next
        case (Some ty)
        then have "name \<in> dom d" by (simp add: dom_def)
        with all have "obj name = None \<or> obj name = Some JNull" by (rule bspec)
        then show ?thesis
          by (auto simp: loop_fields_def split: option.splits)
      qed
    qed
    with run convert_fields_all_convertible [OF assms(5) w] show ?thesis by simp
  qed
  from a b c show ?thesis by blast
qed

theorem C8_witness:
  "enumerates (range_order rt0 (map_of trade_types)) (map_of trade_types) \<and>
   unmarshal_obj rt0 (Message (msg_line null_msg_payload)) =
     Inr [''ts'' \<mapsto> JNull, ''n'' \<mapsto> JFloat 42, ''x'' \<mapsto> JBool True] \<and>
   (case fst (processRawLine rt0 p_trade (msg_line null_msg_payload)) of
      Emit sl \<Rightarrow>
        (case StructLine.Message sl of
           Fields m \<Rightarrow> m ''ts'' = Some JNull \<and> m ''x'' = Some (JBool True) \<and> m ''n'' = Some (JInt64 42)
         | Raw _ \<Rightarrow> False)
    | _ \<Rightarrow> False)"
proof -
  have e: "enumerates (range_order rt0 (map_of trade_types)) (map_of trade_types)"
    by (simp add: enumerates_def sample_defs)
  have u: "unmarshal_obj rt0 (Message (msg_line null_msg_payload)) =
     Inr [''ts'' \<mapsto> JNull, ''n'' \<mapsto> JFloat 42, ''x'' \<mapsto> JBool True]"
    by (simp add: sample_defs null_msg_payload_def)
  have r: "case fst (processRawLine rt0 p_trade (msg_line null_msg_payload)) of
      Emit sl \<Rightarrow>
        (case StructLine.Message sl of
           Fields m \<Rightarrow> m ''ts'' = Some JNull \<and> m ''x'' = Some (JBool True) \<and> m ''n'' = Some (JInt64 42)
         | Raw _ \<Rightarrow> False)
    | _ \<Rightarrow> False"
    using C8_null_and_undeclared_pass_through [of "msg_line null_msg_payload" "''trade''" p_trade
        "map_of trade_types" rt0 "[''ts'' \<mapsto> JNull, ''n'' \<mapsto> JFloat 42, ''x'' \<mapsto> JBool True]"] e u
    by (simp add: sample_defs eval_defs null_msg_payload_def)
  from e u r show ?thesis by simp
qed

section \<open>Download and stream\<close>

text \<open>
  C6. In the download path the raw lines go through one fresh processor in order. The
  download returns a sequence exactly when every line is emitted or skipped, and the
  sequence is then the emitted lines in order: a line the processor skipped (a schema
  definition) has no element in it. When the processor returns an error for a line, and
  every line before it was emitted or skipped, the download returns that error and no
  sequence.
\<close>

theorem C6_download_drops_definitions_and_aborts_on_error:
  assumes "bulkFetch tr (rawRequest_of r) concurrency = Inr ls"
  shows "(\<forall>out. fst (DownloadWithContext tr rt r concurrency) = Lines out \<longleftrightarrow>
            (\<forall>res \<in> set (feed rt newRawLineProcessor ls). proceeds res) \<and>
            out = emitted (feed rt newRawLineProcessor ls)) \<and>
         (\<forall>k e. k < length ls \<and> feed rt newRawLineProcessor ls ! k = Fail e \<and>
                (\<forall>j < k. proceeds (feed rt newRawLineProcessor ls ! j)) \<longrightarrow>
                fst (DownloadWithContext tr rt r concurrency) = Error e)"
proof -
  let ?rs = "feed rt newRawLineProcessor ls"
  have len: "length (feed rt p ls) = length ls" for p
    by (induction ls arbitrary: p) (auto split: prod.splits)
  have d: "fst (DownloadWithContext tr rt r concurrency) =
      (case find halts ?rs of
         None \<Rightarrow> Lines (emitted ?rs) | Some (Fail e) \<Rightarrow> Error e | Some _ \<Rightarrow> DownloadPanic)"
    using assms by (simp add: DownloadWithContext_def download_loop_feed split: option.splits)
  have a: "fst (DownloadWithContext tr rt r concurrency) = Lines out \<longleftrightarrow>
      (\<forall>res \<in> set ?rs. proceeds res) \<and> out = emitted ?rs" for out
  proof (cases "find halts ?rs")
    case None
    with d find_halts_None [of ?rs] show ?thesis by auto
  next
    case (Some res)
    then have "\<not> (\<forall>res \<in> set ?rs. proceeds res)"
      using find_halts_None [of ?rs] by simp
    with d Some show ?thesis
      by (cases res) auto
  qed
  have b: "fst (DownloadWithContext tr rt r concurrency) = Error e"
    if "k < length ls" "?rs ! k = Fail e" "\<forall>j < k. proceeds (?rs ! j)" for k e
  proof -
    have "find halts ?rs = Some (Fail e)"
      using find_halts_first [of k ?rs] that len [of newRawLineProcessor] by simp
    with d show ?thesis by simp
  qed
  from a b show ?thesis by blast
qed

theorem C6_witness:
  "bulkFetch tr0 (rawRequest_of r0) 4 = Inr sample_lines \<and>
   map proceeds (feed rt0 newRawLineProcessor sample_lines) = [True, True, True, True] \<and>
   feed rt0 newRawLineProcessor sample_lines ! 1 = Skip \<and>
   fst (DownloadWithContext tr0 rt0 r0 4) = Lines (emitted (feed rt0 newRawLineProcessor sample_lines)) \<and>
   length (emitted (feed rt0 newRawLineProcessor sample_lines)) = 3 \<and>
   bulkFetch tr1 (rawRequest_of r0) 4 = Inr broken_lines \<and>
   feed rt0 newRawLineProcessor broken_lines ! 2 = Fail (MessageUnmarshal ''invalid character'') \<and>
   fst (DownloadWithContext tr1 rt0 r0 4) = Error (MessageUnmarshal ''invalid character'')"
proof -
  have b0: "bulkFetch tr0 (rawRequest_of r0) 4 = Inr sample_lines"
    and b1: "bulkFetch tr1 (rawRequest_of r0) 4 = Inr broken_lines"
    by (simp_all add: tr0_def tr1_def)
  have f0: "map proceeds (feed rt0 newRawLineProcessor sample_lines) = [True, True, True, True]"
    and s0: "feed rt0 newRawLineProcessor sample_lines ! 1 = Skip"
    and l0: "length (emitted (feed rt0 newRawLineProcessor sample_lines)) = 3"
    by (simp_all add: sample_lines_def sample_defs eval_defs)
  have p0: "\<forall>res \<in> set (feed rt0 newRawLineProcessor sample_lines). proceeds res"
  proof
    fix res
    assume "res \<in> set (feed rt0 newRawLineProcessor sample_lines)"
    then have "proceeds res \<in> set (map proceeds (feed rt0 newRawLineProcessor sample_lines))"
      by simp
    then show "proceeds res" unfolding f0 by simp
  qed
  have f1: "map proceeds (feed rt0 newRawLineProcessor broken_lines) = [True, True, False, True]"
    and k1: "feed rt0 newRawLineProcessor broken_lines ! 2 = Fail (MessageUnmarshal ''invalid character'')"
    by (simp_all add: broken_lines_def sample_defs eval_defs)
  have j1: "\<forall>j < 2. proceeds (feed rt0 newRawLineProcessor broken_lines ! j)"
  proof (intro allI impI)
    fix j :: nat
    assume "j < 2"
    then have "j = 0 \<or> j = 1" by auto
    moreover have "length (feed rt0 newRawLineProcessor broken_lines) = 4"
      using arg_cong [OF f1, of length] by simp
    ultimately have "proceeds (feed rt0 newRawLineProcessor broken_lines ! j) =
        map proceeds (feed rt0 newRawLineProcessor broken_lines) ! j"
      by auto
    with \<open>j = 0 \<or> j = 1\<close> show "proceeds (feed rt0 newRawLineProcessor broken_lines ! j)"
      unfolding f1 by auto
  qed
  have d0: "fst (DownloadWithContext tr0 rt0 r0 4) =
      Lines (emitted (feed rt0 newRawLineProcessor sample_lines))"
    using C6_download_drops_definitions_and_aborts_on_error [OF b0, of rt0] p0 by simp
  have "2 < length broken_lines"
    by (simp add: broken_lines_def)
  moreover from C6_download_drops_definitions_and_aborts_on_error [OF b1, of rt0]
  have "2 < length broken_lines \<and>
      feed rt0 newRawLineProcessor broken_lines ! 2 = Fail (MessageUnmarshal ''invalid character'') \<and>
      (\<forall>j < 2. proceeds (feed rt0 newRawLineProcessor broken_lines ! j)) \<longrightarrow>
      fst (DownloadWithContext tr1 rt0 r0 4) = Error (MessageUnmarshal ''invalid character'')"
    by blast
  ultimately have d1:
    "fst (DownloadWithContext tr1 rt0 r0 4) = Error (MessageUnmarshal ''invalid character'')"
    using k1 j1 by blast
  from b0 f0 s0 d0 l0 b1 k1 d1 show ?thesis by simp
qed

text \<open>
  C4. For a transport that hands the same raw lines to the bulk fetch and to the stream:
  the download returns a sequence of typed lines exactly when draining the iterator
  ends in exhaustion, and the two sequences are equal; the download returns an error
  exactly when the drained iterator stopped with that error.
\<close>

theorem C4_download_equals_drained_stream:
  assumes "bulkFetch tr (rawRequest_of r) concurrency = Inr ls"
    and "streamFetch tr (rawRequest_of r) bufferSize = Inr \<lparr>pending = ls, failure = None\<rparr>"
  shows "\<exists>i. fst (StreamWithContext tr r bufferSize) = Inr i \<and>
           (\<forall>res. fst (DownloadWithContext tr rt r concurrency) = Lines res \<longleftrightarrow>
                  drain rt i = (res, Exhausted)) \<and>
           (\<forall>e. fst (DownloadWithContext tr rt r concurrency) = Error e \<longleftrightarrow>
                  (\<exists>got. drain rt i = (got, Broken e))) \<and>
           (fst (DownloadWithContext tr rt r concurrency) = DownloadPanic \<longleftrightarrow>
                  (\<exists>got. drain rt i = (got, Crashed)))"
proof -
  let ?i = "iterator ls None newRawLineProcessor"
  obtain got end' where dr: "drain rt ?i = (got, end')"
    by (cases "drain rt ?i")
  have s: "fst (StreamWithContext tr r bufferSize) = Inr ?i"
    using assms(2) by (simp add: StreamWithContext_def newReplayStreamIterator_def iterator_def)
  have d: "fst (DownloadWithContext tr rt r concurrency) = replayed (got, end')"
    using assms(1) dr by (simp add: DownloadWithContext_def download_loop_replayed)
  have ny: "end' \<noteq> Yield x" for x
    using drain_never_Yield [of rt ls None newRawLineProcessor x] dr by simp
  show ?thesis
    using s d dr ny
    by (auto simp: replayed_Lines replayed_Error replayed_Panic)
qed

theorem C4_witness:
  "bulkFetch tr0 (rawRequest_of r0) 4 = Inr sample_lines \<and>
   streamFetch tr0 (rawRequest_of r0) 8 = Inr \<lparr>pending = sample_lines, failure = None\<rparr> \<and>
   fst (StreamWithContext tr0 r0 8) = Inr (iterator sample_lines None newRawLineProcessor) \<and>
   fst (DownloadWithContext tr0 rt0 r0 4) =
     Lines (fst (drain rt0 (iterator sample_lines None newRawLineProcessor))) \<and>
   snd (drain rt0 (iterator sample_lines None newRawLineProcessor)) = Exhausted \<and>
   length (fst (drain rt0 (iterator sample_lines None newRawLineProcessor))) = 3"
proof -
  have b: "bulkFetch tr0 (rawRequest_of r0) 4 = Inr sample_lines"
    and s: "streamFetch tr0 (rawRequest_of r0) 8 = Inr \<lparr>pending = sample_lines, failure = None\<rparr>"
    by (simp_all add: tr0_def)
  have i: "fst (StreamWithContext tr0 r0 8) = Inr (iterator sample_lines None newRawLineProcessor)"
    by (simp add: StreamWithContext_def newReplayStreamIterator_def iterator_def tr0_def)
  have e: "snd (drain rt0 (iterator sample_lines None newRawLineProcessor)) = Exhausted"
    and l: "length (fst (drain rt0 (iterator sample_lines None newRawLineProcessor))) = 3"
    by (simp_all add: sample_lines_def drain_Cons drain_Nil sample_defs eval_defs)
  from C4_download_equals_drained_stream [OF b s, of rt0] i e
  have "fst (DownloadWithContext tr0 rt0 r0 4) =
     Lines (fst (drain rt0 (iterator sample_lines None newRawLineProcessor)))"
    by (auto simp: prod_eq_iff)
  with b s i e l show ?thesis by simp
qed


section \<open>Request construction\<close>




end
